theory Spec2Isabelle
  imports Main "HOL-Library.Word"
begin

unbundle bit_operations_syntax

section \<open>The LED matrix timer (main.c)\<close>

text \<open>
  The firmware of an 8x8 RGB LED matrix timer on an ATmega168PB. Two interrupt handlers
  write the globals \<open>state\<close> and \<open>enabled\<close>; the main loop reads \<open>state\<close> and bit-bangs
  4-byte frames into a chain of 74HC595 shift registers.

  All C values of type \<open>uint8_t\<close> are \<open>8 word\<close>: \<open>+\<close> wraps modulo 256, \<open>NOT\<close> is the
  complement truncated to eight bits (C's \<open>~\<close> on the promoted int, stored back into a
  \<open>uint8_t\<close>), and \<open>push_bit n\<close> is \<open><< n\<close> stored back into a \<open>uint8_t\<close>.
\<close>

type_synonym u8 = "8 word"
type_synonym u16 = "16 word"

subsection \<open>The shared state and the two interrupt handlers\<close>

text \<open>
  \<open>volatile uint8_t state = 255; volatile uint8_t enabled = 0;\<close> and the 16-bit hardware
  counter \<open>TCNT1\<close> of timer 1, which the button handler writes.
\<close>

record mcu =
  state :: u8
  enabled :: u8
  TCNT1 :: u16

text \<open>The globals' initialisers, and \<open>TCNT1 = 0\<close> from \<open>timer_init\<close>.\<close>

definition startup :: mcu where
  "startup = \<lparr>state = 255, enabled = 0, TCNT1 = 0\<rparr>"

text \<open>C tests \<open>if (enabled)\<close>: any non-zero byte counts as running.\<close>

definition running :: "mcu \<Rightarrow> bool" where
  "running s = (enabled s \<noteq> 0)"

text \<open>
  \<open>BUTTON_PIN\<close> is \<open>PINB7\<close>, bit 7 of the input register \<open>PINB\<close> (the header comment:
  "Button - PB7"; the number comes from avr/io.h). The handler's guard is
  \<open>BUTTON_PIN_REG & (1 << BUTTON_PIN)\<close>; the value of \<open>PINB\<close> at that read is the
  handler's input.
\<close>

definition BUTTON_PIN :: nat where
  "BUTTON_PIN = 7"

definition button_high :: "u8 \<Rightarrow> bool" where
  "button_high pinb = (pinb AND push_bit BUTTON_PIN 1 \<noteq> 0)"

text \<open>\<open>ISR(PCINT0_vect)\<close>: the pin change handler of the button.\<close>

definition PCINT0_vect :: "u8 \<Rightarrow> mcu \<Rightarrow> mcu" where
  "PCINT0_vect pinb s =
     (if button_high pinb then
        (if state s = 255 then s\<lparr>enabled := 1, state := 0, TCNT1 := 0\<rparr>
         else s\<lparr>enabled := 0, state := 255\<rparr>)
      else s)"

text \<open>
  \<open>ISR(TIMER1_COMPA_vect)\<close>: the compare match handler. \<open>state++\<close> on a \<open>uint8_t\<close>
  wraps; the comparison \<open>state > 63\<close> reads the incremented value.
\<close>

definition TIMER1_COMPA_vect :: "mcu \<Rightarrow> mcu" where
  "TIMER1_COMPA_vect s =
     (if enabled s \<noteq> 0 then
        (let s1 = s\<lparr>state := state s + 1\<rparr>
         in if state s1 > 63 then s1\<lparr>enabled := 0\<rparr> else s1)
      else s)"

text \<open>
  What can happen to the shared state between two instructions of the main loop: one of
  the two handlers runs to completion (an AVR handler runs with interrupts disabled), or
  the timer hardware counts and \<open>TCNT1\<close> takes another value.
\<close>

datatype irq = Pin_change u8 | Timer_compare | Timer_counts u16

fun irq_step :: "irq \<Rightarrow> mcu \<Rightarrow> mcu" where
  "irq_step (Pin_change pinb) s = PCINT0_vect pinb s"
| "irq_step Timer_compare s = TIMER1_COMPA_vect s"
| "irq_step (Timer_counts t) s = s\<lparr>TCNT1 := t\<rparr>"

definition run :: "irq list \<Rightarrow> mcu \<Rightarrow> mcu" where
  "run evs s = fold irq_step evs s"

text \<open>The invariant of the data model: idle is not running, and running stays within 0..63.\<close>

definition state_inv :: "mcu \<Rightarrow> bool" where
  "state_inv s = ((state s = 255 \<longrightarrow> \<not> running s) \<and> (running s \<longrightarrow> state s \<le> 63))"

subsection \<open>The shift register driver\<close>

text \<open>
  The three output lines of \<open>SHIFT_REG_PORT\<close> (port C): \<open>DATA_PIN\<close> is PC2, \<open>LATCH_PIN\<close>
  is PC1 and \<open>CLOCK_PIN\<close> is PC0. Every statement of the driver is a read-modify-write of
  one bit of the port: \<open>SHIFT_REG_PORT |= 1 << pin\<close> drives the line high,
  \<open>SHIFT_REG_PORT &= ~(1 << pin)\<close> drives it low. The driver's effect is the sequence of
  these writes, in program order.
\<close>

datatype line = DATA_PIN | LATCH_PIN | CLOCK_PIN

datatype port_write = Set_bit line | Clear_bit line

text \<open>
  A byte buffer behind a \<open>uint8_t *\<close>: the byte at each index. \<open>show_leds\<close> and
  \<open>shift_out\<close> touch the indices 0..3 only.
\<close>

type_synonym buf = "nat \<Rightarrow> u8"

text \<open>
  The body of the inner loop of \<open>shift_out\<close> for bit \<open>i\<close> of one byte: the data line
  takes the value of \<open>bytes[j] & (1 << i)\<close>, then the clock goes high and low.
\<close>

definition shift_bit :: "u8 \<Rightarrow> nat \<Rightarrow> port_write list" where
  "shift_bit b i =
     [if b AND push_bit i 1 \<noteq> 0 then Set_bit DATA_PIN else Clear_bit DATA_PIN,
      Set_bit CLOCK_PIN,
      Clear_bit CLOCK_PIN]"

text \<open>\<open>for (uint8_t i = 0; i <= 7; i++)\<close>\<close>

definition shift_byte :: "u8 \<Rightarrow> port_write list" where
  "shift_byte b = concat (map (shift_bit b) [0..<8])"

text \<open>
  \<open>shift_out(bytes, size_in_bytes)\<close>: latch low, clock low, the bytes \<open>0 .. size - 1\<close> in
  index order, latch high. (The function returns 0, which no caller reads.)
\<close>

definition shift_out :: "buf \<Rightarrow> u8 \<Rightarrow> port_write list" where
  "shift_out bytes size_in_bytes =
     [Clear_bit LATCH_PIN, Clear_bit CLOCK_PIN]
     @ concat (map (\<lambda>j. shift_byte (bytes j)) [0..<unat size_in_bytes])
     @ [Set_bit LATCH_PIN]"

text \<open>
  \<open>show_leds(bytes)\<close>: the loop \<open>for (i = 1; i <= 3; i++) bytes[i] = ~bytes[i];\<close> writes
  into the caller's buffer, then \<open>shift_out(bytes, 4)\<close>. The result is the buffer after the
  call and the port writes made.
\<close>

definition show_leds :: "buf \<Rightarrow> buf \<times> port_write list" where
  "show_leds bytes =
     (let bytes' = fold (\<lambda>i b. b(i := NOT (b i))) [1..<4] bytes
      in (bytes', shift_out bytes' 4))"

subsection \<open>The main loop\<close>

text \<open>The two pattern tables, local to \<open>main\<close>.\<close>

definition red_left :: "u8 list" where
  "red_left = [0x1, 0x3, 0x7, 0xf, 0x8, 0xc, 0xe, 0xf]"

definition red_right :: "u8 list" where
  "red_right = [0x8, 0xc, 0xe, 0xf, 0x1, 0x3, 0x7, 0xf]"

text \<open>
  \<open>state\<close> is volatile and the main loop has no copy of it: every occurrence of \<open>state\<close>
  in \<open>main\<close> is a read of the global, and a handler may run between two of them. One
  iteration of \<open>while (1)\<close> therefore takes the values of its successive reads as
  input: \<open>rd k\<close> is the value of \<open>state\<close> at the read numbered \<open>k\<close>,
  \<^item> 0: \<open>state == 255\<close> (line 213),
  \<^item> 1: \<open>state > 63\<close> (line 221),
  \<^item> 2: \<open>(int) state / 4\<close> (line 239),
  \<^item> 3: \<open>state % 8\<close> (line 244),
  \<^item> 4 + 2j: \<open>state < 32\<close> for the row byte of row \<open>j\<close> (line 251),
  \<^item> 5 + 2j: \<open>state < 32\<close> for the red byte of row \<open>j\<close> (line 258).
  The main loop never reads \<open>enabled\<close>.
\<close>

type_synonym reads = "nat \<Rightarrow> u8"

text \<open>The counter keeps one value for the whole iteration.\<close>

definition const_reads :: "u8 \<Rightarrow> reads" where
  "const_reads c = (\<lambda>k. c)"

text \<open>
  What the main loop does, in order: \<open>Show_leds r red g b\<close> is a call \<open>show_leds(leds)\<close>
  with \<open>leds = {r, red, g, b}\<close> at the call (the rendered frame, colours not yet
  negated); \<open>Delay_ms n\<close> is \<open>_delay_ms(n)\<close>.
\<close>

datatype event = Show_leds u8 u8 u8 u8 | Delay_ms nat

definition call_show_leds :: "buf \<times> event list \<Rightarrow> buf \<times> event list" where
  "call_show_leds acc =
     (let leds = fst acc
      in (fst (show_leds leds), snd acc @ [Show_leds (leds 0) (leds 1) (leds 2) (leds 3)]))"

definition delay_ms :: "nat \<Rightarrow> buf \<times> event list \<Rightarrow> buf \<times> event list" where
  "delay_ms n acc = (fst acc, snd acc @ [Delay_ms n])"

definition set_leds :: "u8 \<Rightarrow> u8 \<Rightarrow> u8 \<Rightarrow> u8 \<Rightarrow> buf \<times> event list \<Rightarrow> buf \<times> event list" where
  "set_leds r red g b acc = ((fst acc)(0 := r, 1 := red, 2 := g, 3 := b), snd acc)"

text \<open>
  \<open>actual_row = (int) state / 4; if (actual_row > 7) actual_row -= 8;\<close> and
  \<open>last_red = state % 8;\<close>
\<close>

definition calc_actual_row :: "u8 \<Rightarrow> u8" where
  "calc_actual_row st = (let a = st div 4 in if a > 7 then a - 8 else a)"

definition calc_last_red :: "u8 \<Rightarrow> u8" where
  "calc_last_red st = st mod 8"

text \<open>
  The body of \<open>for (uint8_t j = 0; j < 8; j++)\<close>, statement by statement. Each of the
  two tests \<open>state < 32\<close> is a read of \<open>state\<close> of its own.

  "Row's position": the value assigned to \<open>leds[0]\<close>, \<open>1 << (7 - j)\<close> or \<open>1 << j\<close>.
\<close>

definition row_position :: "u8 \<Rightarrow> nat \<Rightarrow> u8" where
  "row_position st j = (if st < 32 then push_bit (7 - j) 1 else push_bit j 1)"

text \<open>
  "Reds in row": the value of \<open>leds[1]\<close> after the chain \<open>if (j == actual_row) ... else
  if (j < actual_row) ... else if (j > actual_row) ...\<close>. The chain has no final else:
  \<open>leds[1]\<close> would keep its value \<open>old\<close>, were none of the three to hold.
\<close>

definition reds_in_row :: "u8 \<Rightarrow> u8 \<Rightarrow> u8 \<Rightarrow> nat \<Rightarrow> u8 \<Rightarrow> u8" where
  "reds_in_row st actual_row last_red j old =
     (if st < 32 then
        (if j = unat actual_row then push_bit 4 (red_left ! unat last_red)
         else if j < unat actual_row then push_bit 4 (red_left ! 3)
         else if j > unat actual_row then 0x00
         else old)
      else
        (if j = unat actual_row then red_right ! unat last_red OR 0xf0
         else if j < unat actual_row then red_right ! 3 OR 0xf0
         else if j > unat actual_row then 0xf0
         else old))"

text \<open>
  The row byte, the red byte, "Greens in row" \<open>leds[2] = ~leds[1]\<close>, "No Blues"
  \<open>leds[3] = 0x00\<close>, and \<open>show_leds(leds)\<close>.
\<close>

definition scan_row :: "reads \<Rightarrow> u8 \<Rightarrow> u8 \<Rightarrow> nat \<Rightarrow> buf \<times> event list \<Rightarrow> buf \<times> event list" where
  "scan_row rd actual_row last_red j acc =
     (let leds = fst acc;
          leds = leds(0 := row_position (rd (4 + 2 * j)) j);
          leds = leds(1 := reds_in_row (rd (5 + 2 * j)) actual_row last_red j (leds 1));
          leds = leds(2 := NOT (leds 1));
          leds = leds(3 := 0x00)
      in call_show_leds (leds, snd acc))"

text \<open>
  One iteration of \<open>while (1)\<close>, from the buffer \<open>leds\<close> as the previous iteration left
  it (uninitialised at the first): the buffer afterwards and the events of the iteration.
\<close>

definition main_iter :: "reads \<Rightarrow> buf \<Rightarrow> buf \<times> event list" where
  "main_iter rd leds =
     (if rd 0 = 255 then
        (let a = set_leds 0xff 0x00 0x00 0xff (leds, []);
             a = call_show_leds a
         in a)
      else if rd 1 > 63 then
        (let a = set_leds 0xff 0xff 0x00 0x00 (leds, []);
             a = call_show_leds a;
             a = delay_ms 500 a;
             a = set_leds 0x00 0x00 0x00 0x00 a;
             a = call_show_leds a;
             a = delay_ms 500 a
         in a)
      else
        (let actual_row = calc_actual_row (rd 2);
             last_red = calc_last_red (rd 3)
         in fold (scan_row rd actual_row last_red) [0..<8] (leds, [])))"

text \<open>
  The loop never returns. Its first iterations, one \<open>reads\<close> for each, give the events
  of a finite prefix of the run.
\<close>

fun main_loop :: "reads list \<Rightarrow> buf \<Rightarrow> buf \<times> event list" where
  "main_loop [] leds = (leds, [])"
| "main_loop (rd # rds) leds =
     (let it = main_iter rd leds; rest = main_loop rds (fst it)
      in (fst rest, snd it @ snd rest))"

text \<open>The frames of an event list, and the row-select byte of a frame.\<close>

fun is_frame :: "event \<Rightarrow> bool" where
  "is_frame (Show_leds r red g b) = True"
| "is_frame (Delay_ms n) = False"

fun row_mask :: "event \<Rightarrow> u8" where
  "row_mask (Show_leds r red g b) = r"
| "row_mask (Delay_ms n) = 0"

text \<open>The number of bits set in a byte.\<close>

definition popcount :: "u8 \<Rightarrow> nat" where
  "popcount w = length (filter (bit w) [0..<8])"

text \<open>Every bit set in \<open>a\<close> is set in \<open>b\<close>.\<close>

definition widens :: "u8 \<Rightarrow> u8 \<Rightarrow> bool" where
  "widens a b = (a AND b = a)"

subsection \<open>Concrete inputs\<close>

text \<open>A buffer with all bytes zero, and a buffer that holds a frame in its first four bytes.\<close>

definition zero_buf :: buf where
  "zero_buf = (\<lambda>i. 0)"

definition frame_buf :: "u8 \<Rightarrow> u8 \<Rightarrow> u8 \<Rightarrow> u8 \<Rightarrow> buf" where
  "frame_buf r red g b = zero_buf(0 := r, 1 := red, 2 := g, 3 := b)"

text \<open>
  A tick of the timer between the scans of row 0 and row 1 of one pass: the counter reads
  31 up to the red byte of row 0 (read 5) and 32 from the row byte of row 1 (read 6) on.
\<close>

definition reads_31_then_32 :: reads where
  "reads_31_then_32 k = (if k < 6 then 31 else 32)"

text \<open>
  A handler writes the counter once during a pass: every read numbered below \<open>k\<close> returns
  \<open>a\<close>, every read from \<open>k\<close> on returns \<open>b\<close>.
\<close>

definition reads_switch :: "nat \<Rightarrow> u8 \<Rightarrow> u8 \<Rightarrow> reads" where
  "reads_switch k a b i = (if i < k then a else b)"

text \<open>The counter is within 0..63 at each of the 20 reads of an iteration.\<close>

definition running_reads :: "reads \<Rightarrow> bool" where
  "running_reads rd = list_all (\<lambda>k. rd k \<le> 63) [0..<20]"

text \<open>
  The reads of an iteration taken from the shared state: \<open>ms k\<close> is the state of the
  machine at the moment of read \<open>k\<close>. Every read of \<open>main\<close> is of the global \<open>state\<close>;
  \<open>enabled\<close> and \<open>TCNT1\<close> do not occur in \<open>main\<close> after the initialisation.
\<close>

definition state_reads :: "(nat \<Rightarrow> mcu) \<Rightarrow> reads" where
  "state_reads ms k = state (ms k)"

subsection \<open>The transmission as the specification words it\<close>

text \<open>
  Section 4.5 of the specification: each bit is put on the data line, then the clock is
  pulsed high and low; the bits of a byte go least significant first; a frame is latch
  low, the four bytes row, red, green, blue with the three colour bytes negated, latch
  high.
\<close>

definition spec_pulse :: "bool \<Rightarrow> port_write list" where
  "spec_pulse v =
     [if v then Set_bit DATA_PIN else Clear_bit DATA_PIN, Set_bit CLOCK_PIN, Clear_bit CLOCK_PIN]"

definition spec_byte :: "u8 \<Rightarrow> port_write list" where
  "spec_byte b = concat (map (\<lambda>i. spec_pulse (bit b i)) [0..<8])"

definition spec_transmit :: "u8 \<Rightarrow> u8 \<Rightarrow> u8 \<Rightarrow> u8 \<Rightarrow> port_write list" where
  "spec_transmit r red g b =
     [Clear_bit LATCH_PIN] @ concat (map spec_byte [r, NOT red, NOT g, NOT b]) @ [Set_bit LATCH_PIN]"

subsection \<open>Facts about the handlers\<close>

lemma button_high_bit: "button_high pinb = bit pinb 7"
  by (simp add: button_high_def BUTTON_PIN_def and_exp_eq_0_iff_not_bit [of pinb 7, simplified])

lemma state_inv_PCINT0_vect: "state_inv s \<Longrightarrow> state_inv (PCINT0_vect pinb s)"
  by (simp add: state_inv_def running_def PCINT0_vect_def)

lemma u8_succ_le_63:
  fixes x :: u8
  assumes "x \<le> 63"
  shows "unat (x + 1) = unat x + 1"
proof -
  from assms have "unat x \<le> 63" by (simp add: word_le_nat_alt)
  then show ?thesis by (simp add: unat_word_ariths)
qed

lemma state_inv_TIMER1_COMPA_vect:
  assumes inv: "state_inv s"
  shows "state_inv (TIMER1_COMPA_vect s)"
proof (cases "enabled s = 0")
  case True
  with inv show ?thesis by (simp add: TIMER1_COMPA_vect_def) 
next
  case False
  with inv have le: "state s \<le> 63" by (simp add: state_inv_def running_def)
  have "unat (state s + 1) = unat (state s) + 1" by (rule u8_succ_le_63 [OF le])
  moreover from le have "unat (state s) \<le> 63" by (simp add: word_le_nat_alt)
  ultimately have ne: "state s + 1 \<noteq> 255" by auto
  show ?thesis using False ne
    by (simp add: TIMER1_COMPA_vect_def Let_def state_inv_def running_def not_less)
qed

lemma state_inv_irq_step: "state_inv s \<Longrightarrow> state_inv (irq_step e s)"
proof (cases e)
  case (Timer_counts t)
  assume "state_inv s"
  with Timer_counts show ?thesis by (simp add: state_inv_def running_def)
qed (simp_all add: state_inv_PCINT0_vect state_inv_TIMER1_COMPA_vect)

lemma state_inv_startup: "state_inv startup"
  by (simp add: state_inv_def running_def startup_def)

lemma state_inv_run: "state_inv s \<Longrightarrow> state_inv (run evs s)"
  unfolding run_def by (induction evs arbitrary: s) (simp_all add: state_inv_irq_step)

lemma tick_law_inv:
  assumes "state_inv s"
  shows "(\<not> running s \<longrightarrow> TIMER1_COMPA_vect s = s)
    \<and> (running s \<longrightarrow>
         unat (state (TIMER1_COMPA_vect s)) = unat (state s) + 1
         \<and> TCNT1 (TIMER1_COMPA_vect s) = TCNT1 s
         \<and> (63 < state (TIMER1_COMPA_vect s) \<longrightarrow>
              state (TIMER1_COMPA_vect s) = 64 \<and> \<not> running (TIMER1_COMPA_vect s))
         \<and> (state (TIMER1_COMPA_vect s) \<le> 63 \<longrightarrow> running (TIMER1_COMPA_vect s)))"
proof (cases "running s")
  case False
  then show ?thesis by (simp add: running_def TIMER1_COMPA_vect_def)
next
  case True
  with assms have le: "state s \<le> 63" by (simp add: state_inv_def)
  have succ: "unat (state s + 1) = unat (state s) + 1" by (rule u8_succ_le_63 [OF le])
  from le have "unat (state s) \<le> 63" by (simp add: word_le_nat_alt)
  with succ have "63 < state s + 1 \<Longrightarrow> unat (state s + 1) = 64"
    by (simp add: word_less_nat_alt)
  moreover have "state s + 1 = of_nat (unat (state s + 1))"
    by simp
  ultimately have top: "63 < state s + 1 \<Longrightarrow> state s + 1 = 64"
    by simp
  from True succ top show ?thesis
    by (auto simp add: running_def TIMER1_COMPA_vect_def Let_def)
qed

lemma ticks_running:
  "state s = 0 \<Longrightarrow> n \<le> 63 \<Longrightarrow> enabled s \<noteq> 0 \<Longrightarrow> (TIMER1_COMPA_vect ^^ n) s = s\<lparr>state := of_nat n\<rparr>"
proof (induction n)
  case 0
  then show ?case by simp
next
  case (Suc n)
  then have "(of_nat (Suc n) :: u8) \<le> 63"
    by (simp add: word_le_nat_alt unat_of_nat del: of_nat_Suc)
  with Suc show ?case by (simp add: TIMER1_COMPA_vect_def Let_def not_less add.commute)
qed

lemma TIMER1_COMPA_vect_idle: "enabled s = 0 \<Longrightarrow> (TIMER1_COMPA_vect ^^ n) s = s"
  by (induction n) (simp_all add: TIMER1_COMPA_vect_def)

lemma ticks_64:
  assumes "state s = 0" and "enabled s \<noteq> 0"
  shows "(TIMER1_COMPA_vect ^^ (64 + n)) s = s\<lparr>state := 64, enabled := 0\<rparr>"
proof -
  have "(TIMER1_COMPA_vect ^^ 63) s = s\<lparr>state := 63\<rparr>"
    using ticks_running [OF assms(1) _ assms(2), of 63] by simp
  moreover have "(64 :: nat) = Suc 63"
    by simp
  then have "(TIMER1_COMPA_vect ^^ 64) s = TIMER1_COMPA_vect ((TIMER1_COMPA_vect ^^ 63) s)"
    by (simp only: funpow.simps o_apply)
  ultimately have "(TIMER1_COMPA_vect ^^ 64) s = s\<lparr>state := 64, enabled := 0\<rparr>"
    using assms(2) by (simp add: TIMER1_COMPA_vect_def Let_def)
  moreover have "(TIMER1_COMPA_vect ^^ (64 + n)) s = (TIMER1_COMPA_vect ^^ n) ((TIMER1_COMPA_vect ^^ 64) s)"
    by (simp add: funpow_add add.commute)
  ultimately show ?thesis by (simp add: TIMER1_COMPA_vect_idle)
qed

subsection \<open>The button handler\<close>

text \<open>
  Claim C1. On every invocation of the pin change handler: when the button reads high
  and \<open>state\<close> is 255, the handler sets \<open>state\<close> to 0, \<open>enabled\<close> to 1 (running) and the
  timer's count \<open>TCNT1\<close> to 0; when the button reads high and \<open>state\<close> is anything else,
  it sets \<open>state\<close> to 255 and \<open>enabled\<close> to 0, whatever the counter was, and leaves
  \<open>TCNT1\<close> alone; when the button reads low it changes nothing.
\<close>

theorem PCINT0_vect_reset_law:
  "(button_high pinb \<and> state s = 255 \<longrightarrow>
      PCINT0_vect pinb s = s\<lparr>state := 0, enabled := 1, TCNT1 := 0\<rparr>
      \<and> running (PCINT0_vect pinb s))
   \<and> (button_high pinb \<and> state s \<noteq> 255 \<longrightarrow>
      PCINT0_vect pinb s = s\<lparr>state := 255, enabled := 0\<rparr>
      \<and> \<not> running (PCINT0_vect pinb s))
   \<and> (\<not> button_high pinb \<longrightarrow> PCINT0_vect pinb s = s)"
  by (simp add: PCINT0_vect_def running_def)

theorem PCINT0_vect_reset_law_witness:
  "button_high 0x80 \<and> state startup = 255
   \<and> PCINT0_vect 0x80 startup = \<lparr>state = 0, enabled = 1, TCNT1 = 0\<rparr>
   \<and> state \<lparr>state = 17, enabled = 1, TCNT1 = 9\<rparr> \<noteq> 255
   \<and> PCINT0_vect 0x80 \<lparr>state = 17, enabled = 1, TCNT1 = 9\<rparr> = \<lparr>state = 255, enabled = 0, TCNT1 = 9\<rparr>
   \<and> PCINT0_vect 0x80 \<lparr>state = 64, enabled = 0, TCNT1 = 9\<rparr> = \<lparr>state = 255, enabled = 0, TCNT1 = 9\<rparr>
   \<and> \<not> button_high 0x7f
   \<and> PCINT0_vect 0x7f \<lparr>state = 17, enabled = 1, TCNT1 = 9\<rparr> = \<lparr>state = 17, enabled = 1, TCNT1 = 9\<rparr>"
  using PCINT0_vect_reset_law [of "0x80" startup]
    PCINT0_vect_reset_law [of "0x80" "\<lparr>state = 17, enabled = 1, TCNT1 = 9\<rparr>"]
    PCINT0_vect_reset_law [of "0x80" "\<lparr>state = 64, enabled = 0, TCNT1 = 9\<rparr>"]
    PCINT0_vect_reset_law [of "0x7f" "\<lparr>state = 17, enabled = 1, TCNT1 = 9\<rparr>"]
  by (simp add: button_high_bit startup_def)

subsection \<open>The timer handler\<close>

text \<open>
  Claim C2. In every state \<open>s\<close> that the handlers can produce from startup, an invocation
  of the compare match handler leaves \<open>s\<close> unchanged when it is not running; when it is
  running the counter goes up by exactly 1 (no wrap-around), and when the new value
  exceeds 63 it is 64 and running is off, otherwise running stays on. From a state with
  counter 0 and running, \<open>m < 64\<close> ticks give counter \<open>m\<close>, still running; 64 ticks give
  counter 64, not running; and so do \<open>64 + n\<close> ticks for every \<open>n\<close>.
  (\<open>tick_law_inv\<close> is the first half for every state that satisfies the invariant.)
\<close>

theorem TIMER1_COMPA_vect_tick_law:
  "(let s = run evs startup; s' = TIMER1_COMPA_vect s in
      (\<not> running s \<longrightarrow> s' = s)
      \<and> (running s \<longrightarrow>
           unat (state s') = unat (state s) + 1
           \<and> (63 < state s' \<longrightarrow> state s' = 64 \<and> \<not> running s')
           \<and> (state s' \<le> 63 \<longrightarrow> running s')))
   \<and> (state s0 = 0 \<and> running s0 \<longrightarrow>
        (m < 64 \<longrightarrow> (TIMER1_COMPA_vect ^^ m) s0 = s0\<lparr>state := of_nat m\<rparr>)
        \<and> (TIMER1_COMPA_vect ^^ 64) s0 = s0\<lparr>state := 64, enabled := 0\<rparr>
        \<and> (TIMER1_COMPA_vect ^^ (64 + n)) s0 = s0\<lparr>state := 64, enabled := 0\<rparr>)"
proof -
  have "state_inv (run evs startup)"
    by (rule state_inv_run [OF state_inv_startup])
  from tick_law_inv [OF this] have first: "(let s = run evs startup; s' = TIMER1_COMPA_vect s in
      (\<not> running s \<longrightarrow> s' = s)
      \<and> (running s \<longrightarrow>
           unat (state s') = unat (state s) + 1
           \<and> (63 < state s' \<longrightarrow> state s' = 64 \<and> \<not> running s')
           \<and> (state s' \<le> 63 \<longrightarrow> running s')))"
    by (simp add: Let_def)
  have second: "(TIMER1_COMPA_vect ^^ m) s0 = s0\<lparr>state := of_nat m\<rparr>"
    if "state s0 = 0" "running s0" "m < 64"
    using that ticks_running [of s0 m] by (simp add: running_def)
  have third: "(TIMER1_COMPA_vect ^^ (64 + k)) s0 = s0\<lparr>state := 64, enabled := 0\<rparr>"
    if "state s0 = 0" "running s0" for k
    using that ticks_64 [of s0 k] by (simp add: running_def)
  from first second third [of 0] third [of n] show ?thesis by simp
qed

theorem TIMER1_COMPA_vect_tick_law_witness:
  "\<not> running (run [] startup)
   \<and> TIMER1_COMPA_vect (run [] startup) = startup
   \<and> running (run [Pin_change 0x80] startup)
   \<and> TIMER1_COMPA_vect (run [Pin_change 0x80] startup) = \<lparr>state = 1, enabled = 1, TCNT1 = 0\<rparr>
   \<and> running (run (Pin_change 0x80 # replicate 63 Timer_compare) startup)
   \<and> state (run (Pin_change 0x80 # replicate 63 Timer_compare) startup) = 63
   \<and> TIMER1_COMPA_vect (run (Pin_change 0x80 # replicate 63 Timer_compare) startup)
       = \<lparr>state = 64, enabled = 0, TCNT1 = 0\<rparr>
   \<and> (TIMER1_COMPA_vect ^^ 10) \<lparr>state = 0, enabled = 1, TCNT1 = 7\<rparr> = \<lparr>state = 10, enabled = 1, TCNT1 = 7\<rparr>
   \<and> (TIMER1_COMPA_vect ^^ 64) \<lparr>state = 0, enabled = 1, TCNT1 = 7\<rparr> = \<lparr>state = 64, enabled = 0, TCNT1 = 7\<rparr>
   \<and> (TIMER1_COMPA_vect ^^ (64 + 5)) \<lparr>state = 0, enabled = 1, TCNT1 = 7\<rparr> = \<lparr>state = 64, enabled = 0, TCNT1 = 7\<rparr>"
proof -
  have r0: "run [] startup = startup"
    by (simp add: run_def)
  have r1: "run [Pin_change 0x80] startup = \<lparr>state = 0, enabled = 1, TCNT1 = 0\<rparr>"
    by (simp add: run_def PCINT0_vect_def button_high_bit startup_def)
  have r63: "run (Pin_change 0x80 # replicate 63 Timer_compare) startup = \<lparr>state = 63, enabled = 1, TCNT1 = 0\<rparr>"
    by code_simp
  show ?thesis
    using TIMER1_COMPA_vect_tick_law [of "[]" "\<lparr>state = 0, enabled = 1, TCNT1 = 7\<rparr>" 10 5]
      TIMER1_COMPA_vect_tick_law [of "[Pin_change 0x80]" "\<lparr>state = 0, enabled = 1, TCNT1 = 7\<rparr>" 10 5]
      TIMER1_COMPA_vect_tick_law [of "Pin_change 0x80 # replicate 63 Timer_compare" "\<lparr>state = 0, enabled = 1, TCNT1 = 7\<rparr>" 10 5]
    unfolding r0 r1 r63
    by (simp add: running_def startup_def TIMER1_COMPA_vect_def Let_def)
qed

subsection \<open>The invariant of the shared state\<close>

text \<open>
  Claim C3. The invariant (\<open>state = 255\<close> implies not running, and running implies
  \<open>state \<le> 63\<close>) holds at startup, is preserved by the pin change handler for every
  value of the button register and by the compare match handler, and so holds in every
  state reached from startup by any sequence of the two handlers (and of counts of the
  timer hardware).
\<close>

theorem state_inv_reachable:
  "state_inv startup
   \<and> (state_inv s \<longrightarrow> state_inv (PCINT0_vect pinb s))
   \<and> (state_inv s \<longrightarrow> state_inv (TIMER1_COMPA_vect s))
   \<and> state_inv (run evs startup)
   \<and> (state (run evs startup) = 255 \<longrightarrow> \<not> running (run evs startup))
   \<and> (running (run evs startup) \<longrightarrow> unat (state (run evs startup)) \<le> 63)"
proof -
  have reach: "state_inv (run evs startup)"
    by (rule state_inv_run [OF state_inv_startup])
  then have "state (run evs startup) = 255 \<longrightarrow> \<not> running (run evs startup)"
    and "running (run evs startup) \<longrightarrow> unat (state (run evs startup)) \<le> 63"
    by (simp_all add: state_inv_def word_le_nat_alt)
  with reach show ?thesis
    by (simp add: state_inv_startup state_inv_PCINT0_vect state_inv_TIMER1_COMPA_vect)
qed

theorem state_inv_reachable_witness:
  "state_inv \<lparr>state = 63, enabled = 1, TCNT1 = 0\<rparr>
   \<and> state_inv (PCINT0_vect 0x80 \<lparr>state = 63, enabled = 1, TCNT1 = 0\<rparr>)
   \<and> state_inv (TIMER1_COMPA_vect \<lparr>state = 63, enabled = 1, TCNT1 = 0\<rparr>)
   \<and> run [Pin_change 0x80, Timer_compare] startup = \<lparr>state = 1, enabled = 1, TCNT1 = 0\<rparr>
   \<and> running (run [Pin_change 0x80, Timer_compare] startup)
   \<and> unat (state (run [Pin_change 0x80, Timer_compare] startup)) \<le> 63
   \<and> state (run [Pin_change 0x80, Pin_change 0x80] startup) = 255
   \<and> \<not> running (run [Pin_change 0x80, Pin_change 0x80] startup)"
proof -
  have inv: "state_inv \<lparr>state = 63, enabled = 1, TCNT1 = 0\<rparr>"
    by (simp add: state_inv_def running_def)
  have r1: "run [Pin_change 0x80, Timer_compare] startup = \<lparr>state = 1, enabled = 1, TCNT1 = 0\<rparr>"
    by (simp add: run_def PCINT0_vect_def TIMER1_COMPA_vect_def button_high_bit startup_def)
  have r2: "run [Pin_change 0x80, Pin_change 0x80] startup = \<lparr>state = 255, enabled = 0, TCNT1 = 0\<rparr>"
    by (simp add: run_def PCINT0_vect_def button_high_bit startup_def)
  show ?thesis
    using inv
      state_inv_reachable [of "\<lparr>state = 63, enabled = 1, TCNT1 = 0\<rparr>" "0x80" "[Pin_change 0x80, Timer_compare]"]
      state_inv_reachable [of "\<lparr>state = 63, enabled = 1, TCNT1 = 0\<rparr>" "0x80" "[Pin_change 0x80, Pin_change 0x80]"]
    unfolding r1 r2
    by (simp add: running_def)
qed

subsection \<open>Facts about the driver and the main loop\<close>

lemma shift_bit_bit:
  "shift_bit b i = [if bit b i then Set_bit DATA_PIN else Clear_bit DATA_PIN, Set_bit CLOCK_PIN, Clear_bit CLOCK_PIN]"
  by (simp add: shift_bit_def and_exp_eq_0_iff_not_bit)

lemma upt_0_8: "[0..<8] = [0, 1, 2, 3, 4, 5, 6, 7]"
  by (simp add: upt_rec)

lemma upt_0_4: "[0..<4] = [0, 1, 2, 3]"
  by (simp add: upt_rec)

lemma upt_1_4: "[Suc 0..<4] = [Suc 0, 2, 3]"
  by (simp add: upt_rec)

lemma show_leds_buf:
  "fst (show_leds bytes) = bytes(1 := NOT (bytes 1), 2 := NOT (bytes 2), 3 := NOT (bytes 3))"
  by (simp add: show_leds_def Let_def upt_1_4)

lemma shift_out_4:
  "shift_out bytes 4 = [Clear_bit LATCH_PIN, Clear_bit CLOCK_PIN]
     @ shift_byte (bytes 0) @ shift_byte (bytes 1) @ shift_byte (bytes 2) @ shift_byte (bytes 3)
     @ [Set_bit LATCH_PIN]"
  by (simp add: shift_out_def upt_0_4)

lemma show_leds_writes:
  "snd (show_leds bytes) = [Clear_bit LATCH_PIN, Clear_bit CLOCK_PIN]
     @ shift_byte (bytes 0) @ shift_byte (NOT (bytes 1)) @ shift_byte (NOT (bytes 2)) @ shift_byte (NOT (bytes 3))
     @ [Set_bit LATCH_PIN]"
  by (simp add: show_leds_def Let_def upt_1_4 shift_out_4)

lemma length_shift_byte: "length (shift_byte b) = 24"
  by (simp add: shift_byte_def upt_0_8 shift_bit_def)

lemma shift_byte_spec: "shift_byte b = spec_byte b"
proof -
  have "shift_bit b = (\<lambda>i. spec_pulse (bit b i))"
    by (rule ext) (simp add: shift_bit_bit spec_pulse_def)
  then show ?thesis by (simp add: shift_byte_def spec_byte_def)
qed

lemma length_spec_byte: "length (spec_byte b) = 24"
  by (simp add: spec_byte_def upt_0_8 spec_pulse_def)

subsection \<open>What a transmission puts on the three lines\<close>

text \<open>
  Claim C5, as amended. For every buffer, \<open>show_leds\<close> makes exactly these port writes:
  latch low; clock low; then for each of the four bytes row, red, green, blue in this
  order, with the three colour bytes negated and the row byte as it is, each bit from the
  least to the most significant on the data line followed by clock high and clock low
  (32 bits, 96 writes); then latch high. This is the sequence of the specification with
  one more write, clock low, after the first.
\<close>

theorem show_leds_transmit:
  "snd (show_leds bytes) =
     [Clear_bit LATCH_PIN, Clear_bit CLOCK_PIN]
     @ concat (map spec_byte [bytes 0, NOT (bytes 1), NOT (bytes 2), NOT (bytes 3)])
     @ [Set_bit LATCH_PIN]
   \<and> length (concat (map spec_byte [bytes 0, NOT (bytes 1), NOT (bytes 2), NOT (bytes 3)])) = 32 * 3
   \<and> snd (show_leds bytes) =
       Clear_bit LATCH_PIN # Clear_bit CLOCK_PIN
       # tl (spec_transmit (bytes 0) (bytes 1) (bytes 2) (bytes 3))"
  by (simp add: show_leds_writes shift_byte_spec length_spec_byte spec_transmit_def)

text \<open>
  The sequence of the specification, which goes from latch low straight to the first data
  bit, is not what \<open>show_leds\<close> writes for the all-zero frame: the code's second write is
  clock low ("For start, set clock to low"), and it makes 99 writes, not 98.
\<close>

theorem show_leds_transmit_counterexample:
  "snd (show_leds (frame_buf 0 0 0 0)) \<noteq> spec_transmit 0 0 0 0
   \<and> length (snd (show_leds (frame_buf 0 0 0 0))) = 99
   \<and> length (spec_transmit 0 0 0 0) = 98
   \<and> snd (show_leds (frame_buf 0 0 0 0)) ! 1 = Clear_bit CLOCK_PIN
   \<and> spec_transmit 0 0 0 0 ! 1 = Clear_bit DATA_PIN"
proof -
  have a: "length (snd (show_leds (frame_buf 0 0 0 0))) = 99"
    by (simp add: show_leds_writes length_shift_byte)
  have b: "length (spec_transmit 0 0 0 0) = 98"
    by (simp add: spec_transmit_def length_spec_byte)
  from a b have "snd (show_leds (frame_buf 0 0 0 0)) \<noteq> spec_transmit 0 0 0 0"
    by auto
  moreover have "snd (show_leds (frame_buf 0 0 0 0)) ! 1 = Clear_bit CLOCK_PIN"
    by (simp add: show_leds_writes)
  moreover have "spec_transmit 0 0 0 0 ! 1 = Clear_bit DATA_PIN"
    by (simp add: spec_transmit_def spec_byte_def upt_0_8 spec_pulse_def)
  ultimately show ?thesis using a b by simp
qed

subsection \<open>The caller's buffer after a transmission\<close>

text \<open>
  Claim C10. \<open>show_leds\<close> writes into its caller's buffer: after the call byte 0 is
  unchanged and bytes 1, 2, 3 are the complements of their values at entry (every other
  byte is untouched). The first call shifts out the negated colours; a second call on the
  buffer as the first left it shifts out the colour bytes as they were at first entry,
  negated twice, and leaves the buffer as it was at first.
\<close>

theorem show_leds_in_place:
  "fst (show_leds bytes) 0 = bytes 0
   \<and> fst (show_leds bytes) 1 = NOT (bytes 1)
   \<and> fst (show_leds bytes) 2 = NOT (bytes 2)
   \<and> fst (show_leds bytes) 3 = NOT (bytes 3)
   \<and> fst (show_leds bytes) = bytes(1 := NOT (bytes 1), 2 := NOT (bytes 2), 3 := NOT (bytes 3))
   \<and> snd (show_leds bytes) =
       [Clear_bit LATCH_PIN, Clear_bit CLOCK_PIN]
       @ shift_byte (bytes 0) @ shift_byte (NOT (bytes 1)) @ shift_byte (NOT (bytes 2))
       @ shift_byte (NOT (bytes 3)) @ [Set_bit LATCH_PIN]
   \<and> snd (show_leds (fst (show_leds bytes))) =
       [Clear_bit LATCH_PIN, Clear_bit CLOCK_PIN]
       @ shift_byte (bytes 0) @ shift_byte (bytes 1) @ shift_byte (bytes 2)
       @ shift_byte (bytes 3) @ [Set_bit LATCH_PIN]
   \<and> fst (show_leds (fst (show_leds bytes))) = bytes"
proof -
  have "fst (show_leds (fst (show_leds bytes))) = bytes"
    by (rule ext) (simp add: show_leds_buf)
  then show ?thesis
    by (simp add: show_leds_writes) (simp add: show_leds_buf)
qed

subsection \<open>The pattern tables\<close>

text \<open>
  Neither table widens from index 3 to index 4: \<open>red_left\<close> goes from \<open>0xf\<close> to \<open>0x8\<close>
  and \<open>red_right\<close> from \<open>0xf\<close> to \<open>0x1\<close>.
\<close>

theorem pattern_tables_counterexample:
  "\<not> widens (red_left ! 3) (red_left ! 4) \<and> \<not> widens (red_right ! 3) (red_right ! 4)"
  by (simp add: widens_def red_left_def red_right_def)

text \<open>
  Claim C6, as amended. Both tables have 8 entries, and for every index \<open>i\<close> in 0..6 other
  than 3 every bit set in entry \<open>i\<close> is set in entry \<open>i + 1\<close>: each table is two runs of
  four widening masks, both ending in the full nibble \<open>0xf\<close>, the second run starting
  again from one bit at the other edge.
\<close>

theorem pattern_tables_widen:
  "length red_left = 8 \<and> length red_right = 8
   \<and> (i < 7 \<and> i \<noteq> 3 \<longrightarrow>
        widens (red_left ! i) (red_left ! (i + 1)) \<and> widens (red_right ! i) (red_right ! (i + 1)))
   \<and> red_left ! 3 = 0xf \<and> red_left ! 4 = 0x8 \<and> red_left ! 7 = 0xf
   \<and> red_right ! 3 = 0xf \<and> red_right ! 4 = 0x1 \<and> red_right ! 7 = 0xf"
proof -
  have "i < 7 \<Longrightarrow> i = 0 \<or> i = 1 \<or> i = 2 \<or> i = 3 \<or> i = 4 \<or> i = 5 \<or> i = 6"
    by arith
  then show ?thesis
    by (auto simp add: widens_def red_left_def red_right_def)
qed

theorem pattern_tables_widen_witness:
  "widens (red_left ! 0) (red_left ! 1) \<and> widens (red_right ! 0) (red_right ! 1)
   \<and> widens (red_left ! 6) (red_left ! 7) \<and> widens (red_right ! 6) (red_right ! 7)"
proof -
  have "(0::nat) < 7 \<and> (0::nat) \<noteq> 3"
    by simp
  with pattern_tables_widen [of 0]
  have "widens (red_left ! 0) (red_left ! (0 + 1)) \<and> widens (red_right ! 0) (red_right ! (0 + 1))"
    by blast
  then have first: "widens (red_left ! 0) (red_left ! 1) \<and> widens (red_right ! 0) (red_right ! 1)"
    by simp
  have "(6::nat) < 7 \<and> (6::nat) \<noteq> 3"
    by simp
  with pattern_tables_widen [of 6]
  have "widens (red_left ! 6) (red_left ! (6 + 1)) \<and> widens (red_right ! 6) (red_right ! (6 + 1))"
    by blast
  then have last: "widens (red_left ! 6) (red_left ! 7) \<and> widens (red_right ! 6) (red_right ! 7)"
    by simp
  from first last show ?thesis by blast
qed

lemma reds_in_row_old: "reds_in_row st a l j old = reds_in_row st a l j 0"
  by (simp add: reds_in_row_def)

lemma scan_row_event:
  "snd (scan_row rd a l j acc) =
     snd acc @ [Show_leds (row_position (rd (4 + 2 * j)) j)
                  (reds_in_row (rd (5 + 2 * j)) a l j 0)
                  (NOT (reds_in_row (rd (5 + 2 * j)) a l j 0)) 0]"
  using reds_in_row_old [of "rd (5 + 2 * j)" a l j "fst acc (Suc 0)"]
  by (simp add: scan_row_def call_show_leds_def Let_def)

lemma fold_scan_row_events:
  "snd (fold (scan_row rd a l) js acc) =
     snd acc @ map (\<lambda>j. Show_leds (row_position (rd (4 + 2 * j)) j)
                  (reds_in_row (rd (5 + 2 * j)) a l j 0)
                  (NOT (reds_in_row (rd (5 + 2 * j)) a l j 0)) 0) js"
  by (induction js arbitrary: acc) (simp_all add: scan_row_event)

lemma main_iter_running:
  assumes "rd 0 \<noteq> 255" and "rd 1 \<le> 63"
  shows "snd (main_iter rd leds) =
     map (\<lambda>j. Show_leds (row_position (rd (4 + 2 * j)) j)
            (reds_in_row (rd (5 + 2 * j)) (calc_actual_row (rd 2)) (calc_last_red (rd 3)) j 0)
            (NOT (reds_in_row (rd (5 + 2 * j)) (calc_actual_row (rd 2)) (calc_last_red (rd 3)) j 0))
            0) [0..<8]"
proof -
  from assms have "main_iter rd leds =
     fold (scan_row rd (calc_actual_row (rd 2)) (calc_last_red (rd 3))) [0..<8] (leds, [])"
    by (auto simp add: main_iter_def Let_def)
  then show ?thesis
    by (simp only: fold_scan_row_events snd_conv append_Nil)
qed

lemma main_iter_const_running:
  assumes "c \<le> 63"
  shows "snd (main_iter (const_reads c) leds) =
     map (\<lambda>j. Show_leds (row_position c j)
            (reds_in_row c (calc_actual_row c) (calc_last_red c) j 0)
            (NOT (reds_in_row c (calc_actual_row c) (calc_last_red c) j 0)) 0) [0..<8]"
proof -
  from assms have "c \<noteq> 255" by auto
  with assms show ?thesis
    using main_iter_running [of "const_reads c" leds] by (simp add: const_reads_def)
qed

lemma main_iter_masks:
  assumes "c \<le> 63"
  shows "map row_mask (snd (main_iter (const_reads c) leds)) =
    (if c < 32 then [0x80, 0x40, 0x20, 0x10, 0x08, 0x04, 0x02, 0x01]
     else [0x01, 0x02, 0x04, 0x08, 0x10, 0x20, 0x40, 0x80])"
  by (simp add: main_iter_const_running [OF assms] row_position_def upt_0_8)

lemma one_row_down:
  "list_all (\<lambda>m. popcount m = 1) [0x80, 0x40, 0x20, 0x10, 0x08, 0x04, 0x02, 0x01]"
  "distinct [0x80, 0x40, 0x20, 0x10, 0x08, 0x04, 0x02, 0x01 :: u8]"
  "list_all (\<lambda>b. length (filter (\<lambda>m. bit m b) [0x80, 0x40, 0x20, 0x10, 0x08, 0x04, 0x02, 0x01 :: u8]) = 1) [0..<8]"
  by (simp_all add: popcount_def upt_0_8)

lemma one_row_up:
  "list_all (\<lambda>m. popcount m = 1) [0x01, 0x02, 0x04, 0x08, 0x10, 0x20, 0x40, 0x80]"
  "distinct [0x01, 0x02, 0x04, 0x08, 0x10, 0x20, 0x40, 0x80 :: u8]"
  "list_all (\<lambda>b. length (filter (\<lambda>m. bit m b) [0x01, 0x02, 0x04, 0x08, 0x10, 0x20, 0x40, 0x80 :: u8]) = 1) [0..<8]"
  by (simp_all add: popcount_def upt_0_8)

subsection \<open>Passes of the main loop\<close>

lemma calc_at_0: "calc_actual_row 0 = 0" "calc_last_red 0 = 0"
  by (simp_all add: calc_actual_row_def calc_last_red_def)

lemma calc_at_31: "calc_actual_row 31 = 7" "calc_last_red 31 = 7"
  by (simp_all add: calc_actual_row_def calc_last_red_def)

lemma pass_at_0:
  "snd (main_iter (const_reads 0) leds) =
    [Show_leds 0x80 0x10 0xEF 0, Show_leds 0x40 0 0xFF 0, Show_leds 0x20 0 0xFF 0,
     Show_leds 0x10 0 0xFF 0, Show_leds 0x08 0 0xFF 0, Show_leds 0x04 0 0xFF 0,
     Show_leds 0x02 0 0xFF 0, Show_leds 0x01 0 0xFF 0]"
proof -
  have "(0 :: u8) \<le> 63" by simp
  from main_iter_const_running [OF this, of leds] show ?thesis
    by (simp add: upt_0_8 calc_at_0 row_position_def reds_in_row_def red_left_def)
qed

lemma main_iter_idle:
  "rd 0 = 255 \<Longrightarrow> snd (main_iter rd leds) = [Show_leds 0xff 0x00 0x00 0xff]"
  by (simp add: main_iter_def Let_def set_leds_def call_show_leds_def)

lemma main_iter_overtime:
  "rd 0 \<noteq> 255 \<Longrightarrow> 63 < rd 1 \<Longrightarrow>
   snd (main_iter rd leds) =
     [Show_leds 0xff 0xff 0x00 0x00, Delay_ms 500, Show_leds 0x00 0x00 0x00 0x00, Delay_ms 500]"
  by (simp add: main_iter_def Let_def set_leds_def call_show_leds_def delay_ms_def)

lemma pass_at_31:
  "snd (main_iter (const_reads 31) leds) =
    [Show_leds 0x80 0xF0 0x0F 0, Show_leds 0x40 0xF0 0x0F 0, Show_leds 0x20 0xF0 0x0F 0,
     Show_leds 0x10 0xF0 0x0F 0, Show_leds 0x08 0xF0 0x0F 0, Show_leds 0x04 0xF0 0x0F 0,
     Show_leds 0x02 0xF0 0x0F 0, Show_leds 0x01 0xF0 0x0F 0]"
proof -
  have "(31 :: u8) \<le> 63" by simp
  from main_iter_const_running [OF this, of leds] show ?thesis
    by (simp add: upt_0_8 calc_at_31 row_position_def reds_in_row_def red_left_def)
qed

lemma pass_at_31_then_32:
  "snd (main_iter reads_31_then_32 leds) =
    [Show_leds 0x80 0xF0 0x0F 0, Show_leds 0x02 0xFF 0x00 0, Show_leds 0x04 0xFF 0x00 0,
     Show_leds 0x08 0xFF 0x00 0, Show_leds 0x10 0xFF 0x00 0, Show_leds 0x20 0xFF 0x00 0,
     Show_leds 0x40 0xFF 0x00 0, Show_leds 0x80 0xFF 0x00 0]"
proof -
  have "reads_31_then_32 0 \<noteq> 255" and "reads_31_then_32 1 \<le> 63"
    by (simp_all add: reads_31_then_32_def)
  note eq = main_iter_running [OF this, of leds]
  show ?thesis
    unfolding eq
    by (simp add: upt_0_8 reads_31_then_32_def calc_at_31 row_position_def reds_in_row_def
        red_left_def red_right_def)
qed

lemma running_reads_iff: "running_reads rd \<longleftrightarrow> (\<forall>k<20. rd k \<le> 63)"
  by (auto simp add: running_reads_def list_all_iff)

lemma popcount_row_position:
  assumes "j < 8"
  shows "popcount (row_position st j) = 1"
proof -
  have "list_all (\<lambda>j. popcount (push_bit (7 - j) 1) = 1 \<and> popcount (push_bit j 1) = 1) [0..<8]"
    by (simp add: popcount_def upt_0_8)
  with assms show ?thesis
    by (simp add: list_all_iff row_position_def)
qed

lemma push_bit_mirror:
  assumes "j < 8"
  shows "push_bit j (1 :: u8) \<noteq> push_bit (7 - j) 1"
proof -
  have "list_all (\<lambda>j. push_bit j (1 :: u8) \<noteq> push_bit (7 - j) 1) [0..<8]"
    by (simp add: upt_0_8)
  with assms show ?thesis
    by (simp add: list_all_iff)
qed

lemma main_iter_running_masks:
  assumes "rd 0 \<noteq> 255" and "rd 1 \<le> 63"
  shows "map row_mask (snd (main_iter rd leds)) = map (\<lambda>j. row_position (rd (4 + 2 * j)) j) [0..<8]"
  by (simp add: main_iter_running [OF assms] comp_def)

lemma main_iter_running_frames:
  assumes "rd 0 \<noteq> 255" and "rd 1 \<le> 63"
  shows "list_all is_frame (snd (main_iter rd leds))"
  by (simp add: main_iter_running [OF assms] list_all_iff)

lemma masks_all_down:
  assumes "\<forall>j<8. rd (4 + 2 * j) < 32"
  shows "map (\<lambda>j. row_position (rd (4 + 2 * j)) j) [0..<8] = [0x80, 0x40, 0x20, 0x10, 0x08, 0x04, 0x02, 0x01]"
proof -
  have "map (\<lambda>j. row_position (rd (4 + 2 * j)) j) [0..<8] = map (\<lambda>j. push_bit (7 - j) 1) [0..<8]"
    using assms by (intro map_cong) (simp_all add: row_position_def)
  then show ?thesis by (simp add: upt_0_8)
qed

lemma masks_all_up:
  assumes "\<forall>j<8. \<not> rd (4 + 2 * j) < 32"
  shows "map (\<lambda>j. row_position (rd (4 + 2 * j)) j) [0..<8] = [0x01, 0x02, 0x04, 0x08, 0x10, 0x20, 0x40, 0x80]"
proof -
  have "map (\<lambda>j. row_position (rd (4 + 2 * j)) j) [0..<8] = map (\<lambda>j. push_bit j 1) [0..<8]"
    using assms by (intro map_cong) (simp_all add: row_position_def)
  then show ?thesis by (simp add: upt_0_8)
qed

lemma run_to_31:
  "run (Pin_change 0x80 # replicate 31 Timer_compare) startup = \<lparr>state = 31, enabled = 1, TCNT1 = 0\<rparr>"
  by code_simp

subsection \<open>A pass of the running display\<close>

text \<open>
  The counter is within 0..63 at every read of the pass and the timer is running, yet the
  row bytes are not pairwise distinct: the handler takes the counter from 31 to 32 (still
  running) between the scans of row 0 and row 1, the row order flips, and the pass sends
  the row byte \<open>0x80\<close> twice and \<open>0x01\<close> never.
\<close>

theorem running_pass_row_masks_counterexample:
  "running_reads reads_31_then_32
   \<and> run (Pin_change 0x80 # replicate 31 Timer_compare) startup = \<lparr>state = 31, enabled = 1, TCNT1 = 0\<rparr>
   \<and> TIMER1_COMPA_vect \<lparr>state = 31, enabled = 1, TCNT1 = 0\<rparr> = \<lparr>state = 32, enabled = 1, TCNT1 = 0\<rparr>
   \<and> running \<lparr>state = 31, enabled = 1, TCNT1 = 0\<rparr>
   \<and> running \<lparr>state = 32, enabled = 1, TCNT1 = 0\<rparr>
   \<and> length (snd (main_iter reads_31_then_32 zero_buf)) = 8
   \<and> map row_mask (snd (main_iter reads_31_then_32 zero_buf))
       = [0x80, 0x02, 0x04, 0x08, 0x10, 0x20, 0x40, 0x80]
   \<and> \<not> distinct (map row_mask (snd (main_iter reads_31_then_32 zero_buf)))
   \<and> 0x01 \<notin> set (map row_mask (snd (main_iter reads_31_then_32 zero_buf)))"
proof -
  have "running_reads reads_31_then_32"
    by (simp add: running_reads_iff reads_31_then_32_def)
  moreover have "TIMER1_COMPA_vect \<lparr>state = 31, enabled = 1, TCNT1 = 0\<rparr> = \<lparr>state = 32, enabled = 1, TCNT1 = 0\<rparr>"
    by (simp add: TIMER1_COMPA_vect_def Let_def)
  ultimately show ?thesis
    by (simp add: run_to_31 pass_at_31_then_32 running_def)
qed

text \<open>
  Claim C4, as amended. For every pass with the counter within 0..63 at each of its reads
  (whatever \<open>enabled\<close> is: the main loop does not read it), the iteration consists of
  exactly 8 calls of \<open>show_leds\<close> and nothing else, and every row byte has exactly one
  bit set. When the counter does not cross the midpoint during the scan, that is when
  the eight reads for the row order are all below 32 or all at least 32, the 8 row
  bytes are pairwise distinct and each of the 8 bit positions is set in exactly one of
  them; in particular for every pass in which the counter keeps one value \<open>c \<le> 63\<close>.
\<close>

theorem running_pass_row_masks:
  assumes "running_reads rd"
  shows "(let evs = snd (main_iter rd leds); masks = map row_mask evs in
      length evs = 8
      \<and> list_all is_frame evs
      \<and> list_all (\<lambda>m. popcount m = 1) masks
      \<and> ((\<forall>j<8. rd (4 + 2 * j) < 32) \<or> (\<forall>j<8. \<not> rd (4 + 2 * j) < 32) \<longrightarrow>
           distinct masks
           \<and> list_all (\<lambda>b. length (filter (\<lambda>m. bit m b) masks) = 1) [0..<8]))
    \<and> (c \<le> 63 \<longrightarrow>
         (let masks = map row_mask (snd (main_iter (const_reads c) leds)) in
            distinct masks
            \<and> list_all (\<lambda>b. length (filter (\<lambda>m. bit m b) masks) = 1) [0..<8]))"
proof -
  from assms have "rd 0 \<le> 63" and le: "rd 1 \<le> 63"
    by (simp_all add: running_reads_iff)
  then have ne: "rd 0 \<noteq> 255"
    by auto
  note masks = main_iter_running_masks [OF ne le, of leds]
  have "length (snd (main_iter rd leds)) = length (map row_mask (snd (main_iter rd leds)))"
    by simp
  also have "\<dots> = 8"
    unfolding masks by simp
  finally have len: "length (snd (main_iter rd leds)) = 8" .
  have pop: "list_all (\<lambda>m. popcount m = 1) (map row_mask (snd (main_iter rd leds)))"
    unfolding masks by (simp add: list_all_iff popcount_row_position)
  have down: "distinct (map row_mask (snd (main_iter rd leds)))
      \<and> list_all (\<lambda>b. length (filter (\<lambda>m. bit m b) (map row_mask (snd (main_iter rd leds)))) = 1) [0..<8]"
    if "\<forall>j<8. rd (4 + 2 * j) < 32"
    unfolding masks masks_all_down [OF that] by (simp only: one_row_down simp_thms)
  have up: "distinct (map row_mask (snd (main_iter rd leds)))
      \<and> list_all (\<lambda>b. length (filter (\<lambda>m. bit m b) (map row_mask (snd (main_iter rd leds)))) = 1) [0..<8]"
    if "\<forall>j<8. \<not> rd (4 + 2 * j) < 32"
    unfolding masks masks_all_up [OF that] by (simp only: one_row_up simp_thms)
  have const: "distinct (map row_mask (snd (main_iter (const_reads c) leds)))
      \<and> list_all (\<lambda>b. length (filter (\<lambda>m. bit m b) (map row_mask (snd (main_iter (const_reads c) leds)))) = 1) [0..<8]"
    if "c \<le> 63"
  proof (cases "c < 32")
    case True
    then show ?thesis
      by (simp only: main_iter_masks [OF that] one_row_down if_True simp_thms)
  next
    case False
    then show ?thesis
      by (simp only: main_iter_masks [OF that] one_row_up if_False simp_thms)
  qed
  note frames = main_iter_running_frames [OF ne le, of leds]
  from down up have sided: "(\<forall>j<8. rd (4 + 2 * j) < 32) \<or> (\<forall>j<8. \<not> rd (4 + 2 * j) < 32) \<longrightarrow>
      distinct (map row_mask (snd (main_iter rd leds)))
      \<and> list_all (\<lambda>b. length (filter (\<lambda>m. bit m b) (map row_mask (snd (main_iter rd leds)))) = 1) [0..<8]"
    by (intro impI) (erule disjE, simp_all only: simp_thms)
  from const have const': "c \<le> 63 \<longrightarrow>
      distinct (map row_mask (snd (main_iter (const_reads c) leds)))
      \<and> list_all (\<lambda>b. length (filter (\<lambda>m. bit m b) (map row_mask (snd (main_iter (const_reads c) leds)))) = 1) [0..<8]"
    by (intro impI)
  show ?thesis
    unfolding Let_def
    by (intro conjI len frames pop sided const')
qed

theorem running_pass_row_masks_witness:
  "running_reads (reads_switch 6 3 4)
   \<and> map row_mask (snd (main_iter (reads_switch 6 3 4) zero_buf))
       = [0x80, 0x40, 0x20, 0x10, 0x08, 0x04, 0x02, 0x01]
   \<and> length (snd (main_iter (reads_switch 6 3 4) zero_buf)) = 8
   \<and> distinct (map row_mask (snd (main_iter (reads_switch 6 3 4) zero_buf)))
   \<and> running_reads (reads_switch 6 40 41)
   \<and> map row_mask (snd (main_iter (reads_switch 6 40 41) zero_buf))
       = [0x01, 0x02, 0x04, 0x08, 0x10, 0x20, 0x40, 0x80]
   \<and> distinct (map row_mask (snd (main_iter (reads_switch 6 40 41) zero_buf)))
   \<and> (40 :: u8) \<le> 63
   \<and> distinct (map row_mask (snd (main_iter (const_reads 40) zero_buf)))"
proof -
  have a: "running_reads (reads_switch 6 3 4)" and b: "running_reads (reads_switch 6 40 41)"
    by (simp_all add: running_reads_iff reads_switch_def)
  have down: "\<forall>j<8. reads_switch 6 3 4 (4 + 2 * j) < 32"
    and up: "\<forall>j<8. \<not> reads_switch 6 40 41 (4 + 2 * j) < 32"
    by (simp_all add: reads_switch_def)
  have ma: "map row_mask (snd (main_iter (reads_switch 6 3 4) zero_buf))
       = [0x80, 0x40, 0x20, 0x10, 0x08, 0x04, 0x02, 0x01]"
    by (rule trans [OF main_iter_running_masks masks_all_down [OF down]])
      (simp_all add: reads_switch_def)
  have mb: "map row_mask (snd (main_iter (reads_switch 6 40 41) zero_buf))
       = [0x01, 0x02, 0x04, 0x08, 0x10, 0x20, 0x40, 0x80]"
    by (rule trans [OF main_iter_running_masks masks_all_up [OF up]])
      (simp_all add: reads_switch_def)
  have c: "(40 :: u8) \<le> 63"
    by simp
  from running_pass_row_masks [OF a, of zero_buf 40] running_pass_row_masks [OF b, of zero_buf 40]
    down up c
  have "length (snd (main_iter (reads_switch 6 3 4) zero_buf)) = 8
    \<and> distinct (map row_mask (snd (main_iter (reads_switch 6 3 4) zero_buf)))
    \<and> distinct (map row_mask (snd (main_iter (reads_switch 6 40 41) zero_buf)))
    \<and> distinct (map row_mask (snd (main_iter (const_reads 40) zero_buf)))"
    unfolding Let_def by blast
  with a b c ma mb show ?thesis
    by (simp only: simp_thms)
qed

text \<open>
  Claim C7. With the counter at 0 the active row is 0 and the sub-phase is 0; the frame of
  row index 0 is row \<open>0x80\<close>, red \<open>red_left[0] << 4 = 0x10\<close>, green \<open>0xEF\<close> (the complement
  of red), blue \<open>0x00\<close>, and the frame of row index 1 of the same pass has red \<open>0x00\<close> and
  green \<open>0xFF\<close> (row \<open>0x40\<close>, blue \<open>0x00\<close>).
\<close>

theorem first_pass_after_start:
  "snd (main_iter (const_reads 0) leds) ! 0 = Show_leds 0x80 0x10 0xEF 0x00
   \<and> snd (main_iter (const_reads 0) leds) ! 1 = Show_leds 0x40 0x00 0xFF 0x00
   \<and> calc_actual_row 0 = 0 \<and> calc_last_red 0 = 0
   \<and> push_bit 4 (red_left ! 0) = (0x10 :: u8)
   \<and> NOT (0x10 :: u8) = 0xEF"
  by (simp add: pass_at_0 calc_at_0 red_left_def)

subsection \<open>The overtime display\<close>

text \<open>
  The counter value 255 exceeds 63, and a pass at 255 is the idle display: one frame, all
  rows blue, no delay. The test \<open>state == 255\<close> comes first.
\<close>

theorem overtime_counterexample:
  "(63 :: u8) < 255
   \<and> snd (main_iter (const_reads 255) zero_buf) = [Show_leds 0xff 0x00 0x00 0xff]
   \<and> snd (main_iter (const_reads 255) zero_buf) \<noteq>
       [Show_leds 0xff 0xff 0x00 0x00, Delay_ms 500, Show_leds 0x00 0x00 0x00 0x00, Delay_ms 500]"
  by (simp add: main_iter_idle const_reads_def)

text \<open>
  Claim C8, as amended. Whenever the counter is above 63 and below 255 (at every read of
  every iteration considered), each iteration of the main loop shows the frame
  \<open>(0xFF, 0xFF, 0x00, 0x00)\<close>, waits 500 ms, shows the all-zero frame and waits 500 ms; so
  the events of any number of consecutive iterations are this group of four repeated:
  the two frames alternate strictly, each followed by the same delay, and no other frame
  is shown.
\<close>

theorem overtime_alternates:
  assumes "\<forall>rd \<in> set rds. \<forall>k. 63 < rd k \<and> rd k < 255"
  shows "snd (main_loop rds leds) =
    concat (replicate (length rds)
      [Show_leds 0xff 0xff 0x00 0x00, Delay_ms 500, Show_leds 0x00 0x00 0x00 0x00, Delay_ms 500])"
  using assms
proof (induction rds arbitrary: leds)
  case Nil
  show ?case by simp
next
  case (Cons rd rds)
  then have "rd 0 < 255" and "63 < rd 1"
    by simp_all
  then have "rd 0 \<noteq> 255" and "63 < rd 1"
    by auto
  then have "snd (main_iter rd leds) =
     [Show_leds 0xff 0xff 0x00 0x00, Delay_ms 500, Show_leds 0x00 0x00 0x00 0x00, Delay_ms 500]"
    by (rule main_iter_overtime)
  moreover have "snd (main_loop rds (fst (main_iter rd leds))) =
    concat (replicate (length rds)
      [Show_leds 0xff 0xff 0x00 0x00, Delay_ms 500, Show_leds 0x00 0x00 0x00 0x00, Delay_ms 500])"
    using Cons.prems by (intro Cons.IH) simp
  ultimately show ?case
    by (simp add: Let_def)
qed

theorem overtime_alternates_witness:
  "snd (main_loop [const_reads 64, const_reads 200] zero_buf) =
     [Show_leds 0xff 0xff 0x00 0x00, Delay_ms 500, Show_leds 0x00 0x00 0x00 0x00, Delay_ms 500,
      Show_leds 0xff 0xff 0x00 0x00, Delay_ms 500, Show_leds 0x00 0x00 0x00 0x00, Delay_ms 500]"
  using overtime_alternates [of "[const_reads 64, const_reads 200]" zero_buf]
  by (simp add: const_reads_def)

subsection \<open>The reads of the counter in one pass\<close>

text \<open>
  A pass is not a function of its first read. When the timer handler takes the counter
  from 31 to 32 between the scans of row 0 and row 1, the pass starts like the pass for
  31 and goes on like the pass for 32: the first read is 31 in both, the frames differ
  from row 1 on, and the row byte \<open>0x80\<close> is sent twice.
\<close>

theorem main_iter_reads_counterexample:
  "reads_31_then_32 0 = 31 \<and> const_reads 31 0 = 31
   \<and> state (TIMER1_COMPA_vect \<lparr>state = 31, enabled = 1, TCNT1 = 0\<rparr>) = 32
   \<and> snd (main_iter (const_reads 31) zero_buf) =
       [Show_leds 0x80 0xF0 0x0F 0, Show_leds 0x40 0xF0 0x0F 0, Show_leds 0x20 0xF0 0x0F 0,
        Show_leds 0x10 0xF0 0x0F 0, Show_leds 0x08 0xF0 0x0F 0, Show_leds 0x04 0xF0 0x0F 0,
        Show_leds 0x02 0xF0 0x0F 0, Show_leds 0x01 0xF0 0x0F 0]
   \<and> snd (main_iter reads_31_then_32 zero_buf) =
       [Show_leds 0x80 0xF0 0x0F 0, Show_leds 0x02 0xFF 0x00 0, Show_leds 0x04 0xFF 0x00 0,
        Show_leds 0x08 0xFF 0x00 0, Show_leds 0x10 0xFF 0x00 0, Show_leds 0x20 0xFF 0x00 0,
        Show_leds 0x40 0xFF 0x00 0, Show_leds 0x80 0xFF 0x00 0]
   \<and> snd (main_iter reads_31_then_32 zero_buf) \<noteq> snd (main_iter (const_reads 31) zero_buf)"
  by (simp add: pass_at_31 pass_at_31_then_32)
    (simp add: reads_31_then_32_def const_reads_def TIMER1_COMPA_vect_def Let_def)

lemma scan_row_reads:
  assumes "rd (4 + 2 * j) = rd' (4 + 2 * j)" and "rd (5 + 2 * j) = rd' (5 + 2 * j)"
  shows "scan_row rd a l j = scan_row rd' a l j"
  using assms by (simp add: scan_row_def fun_eq_iff)

lemma main_iter_reads_agree:
  assumes "\<forall>k<20. rd k = rd' k"
  shows "main_iter rd leds = main_iter rd' leds"
proof -
  have "scan_row rd a l j = scan_row rd' a l j" if "j \<in> set [0..<8]" for a l j
  proof -
    from that have "4 + 2 * j < 20" and "5 + 2 * j < 20" by simp_all
    with assms show ?thesis by (intro scan_row_reads) simp_all
  qed
  then have "fold (scan_row rd a l) [0..<8] (leds, []) = fold (scan_row rd' a l) [0..<8] (leds, [])"
    for a l
    by (intro fold_cong) simp_all
  moreover from assms have "rd 0 = rd' 0" "rd 1 = rd' 1" "rd 2 = rd' 2" "rd 3 = rd' 3"
    by simp_all
  ultimately show ?thesis
    by (simp add: main_iter_def)
qed

lemma main_iter_switch:
  assumes "a \<le> 63" and "m \<le> 8"
  shows "snd (main_iter (reads_switch (4 + 2 * m) a b) leds) =
     take m (snd (main_iter (const_reads a) leds))
     @ map (\<lambda>j. Show_leds (row_position b j)
              (reds_in_row b (calc_actual_row a) (calc_last_red a) j 0)
              (NOT (reds_in_row b (calc_actual_row a) (calc_last_red a) j 0)) 0) [m..<8]"
proof -
  let ?rd = "reads_switch (4 + 2 * m) a b"
  let ?F = "\<lambda>st j. Show_leds (row_position st j)
              (reds_in_row st (calc_actual_row a) (calc_last_red a) j 0)
              (NOT (reds_in_row st (calc_actual_row a) (calc_last_red a) j 0)) 0"
  from assms(1) have "a \<noteq> 255" by auto
  with assms(1) have "?rd 0 \<noteq> 255" and "?rd 1 \<le> 63"
    by (simp_all add: reads_switch_def)
  note eq = main_iter_running [OF this, of leds]
  have r: "?rd (4 + 2 * j) = (if j < m then a else b)" "?rd (5 + 2 * j) = (if j < m then a else b)"
    "?rd 2 = a" "?rd 3 = a" for j
    by (auto simp add: reads_switch_def)
  have "snd (main_iter ?rd leds) = map (\<lambda>j. ?F (if j < m then a else b) j) [0..<8]"
    unfolding eq r by (rule refl)
  also from assms(2) have "[0..<8] = [0..<m] @ [m..<8]"
    using upt_add_eq_append [of 0 m "8 - m"] by simp
  also have "map (\<lambda>j. ?F (if j < m then a else b) j) ([0..<m] @ [m..<8]) =
      map (?F a) [0..<m] @ map (?F b) [m..<8]"
    by simp
  also from assms(2) have "map (?F a) [0..<m] = take m (map (?F a) [0..<8])"
    by (simp add: take_map)
  also have "map (?F a) [0..<8] = snd (main_iter (const_reads a) leds)"
    by (simp only: main_iter_const_running [OF assms(1)])
  finally show ?thesis .
qed

lemma row_position_sides:
  assumes "(a < 32) \<noteq> (b < 32)" and "j < 8"
  shows "row_position b j \<noteq> row_position a j"
  using assms push_bit_mirror [OF assms(2)] by (auto simp add: row_position_def)

lemma running_row_mask_nth:
  assumes "rd 0 \<noteq> 255" and "rd 1 \<le> 63" and "j < 8"
  shows "row_mask (snd (main_iter rd leds) ! j) = row_position (rd (4 + 2 * j)) j"
proof -
  have "row_mask (snd (main_iter rd leds) ! j) = map row_mask (snd (main_iter rd leds)) ! j"
    using assms(3) by (simp add: main_iter_running [OF assms(1,2)])
  also have "\<dots> = row_position (rd (4 + 2 * j)) j"
    unfolding main_iter_running_masks [OF assms(1,2)] using assms(3) by simp
  finally show ?thesis .
qed

lemma main_iter_switch_observed:
  assumes "a \<le> 63" and "(a < 32) \<noteq> (b < 32)" and "m \<le> j" and "j < 8"
  shows "row_mask (snd (main_iter (reads_switch (4 + 2 * m) a b) leds) ! j) = row_position b j
    \<and> row_mask (snd (main_iter (const_reads a) leds) ! j) = row_position a j
    \<and> row_position b j \<noteq> row_position a j"
proof -
  from assms(1) have ne: "a \<noteq> 255" by auto
  from ne assms(1) have "reads_switch (4 + 2 * m) a b 0 \<noteq> 255" and "reads_switch (4 + 2 * m) a b 1 \<le> 63"
    by (simp_all add: reads_switch_def)
  note sw = running_row_mask_nth [OF this assms(4), of leds]
  from assms(3) have "reads_switch (4 + 2 * m) a b (4 + 2 * j) = b"
    by (simp add: reads_switch_def)
  with sw have "row_mask (snd (main_iter (reads_switch (4 + 2 * m) a b) leds) ! j) = row_position b j"
    by (simp only:)
  moreover from ne assms(1) have "const_reads a 0 \<noteq> 255" and "const_reads a 1 \<le> 63"
    by (simp_all add: const_reads_def)
  note cn = running_row_mask_nth [OF this assms(4), of leds]
  have "const_reads a (4 + 2 * j) = a"
    by (simp add: const_reads_def)
  with cn have "row_mask (snd (main_iter (const_reads a) leds) ! j) = row_position a j"
    by (simp only:)
  ultimately show ?thesis
    using row_position_sides [OF assms(2,4)] by simp
qed

lemma main_iter_switch_after_dispatch:
  assumes "a \<le> 63"
  shows "snd (main_iter (reads_switch 2 a b) leds) =
     map (\<lambda>j. Show_leds (row_position b j)
            (reds_in_row b (calc_actual_row b) (calc_last_red b) j 0)
            (NOT (reds_in_row b (calc_actual_row b) (calc_last_red b) j 0)) 0) [0..<8]"
proof -
  from assms have "a \<noteq> 255" by auto
  with assms have "reads_switch 2 a b 0 \<noteq> 255" and "reads_switch 2 a b 1 \<le> 63"
    by (simp_all add: reads_switch_def)
  note eq = main_iter_running [OF this, of leds]
  have r: "reads_switch 2 a b (4 + 2 * j) = b" "reads_switch 2 a b (5 + 2 * j) = b"
    "reads_switch 2 a b 2 = b" "reads_switch 2 a b 3 = b" for j
    by (simp_all add: reads_switch_def)
  show ?thesis
    unfolding eq r by (rule refl)
qed

lemma state_reads_switch:
  "state_reads (\<lambda>i. if i < k then s else irq_step e s) = reads_switch k (state s) (state (irq_step e s))"
  by (rule ext) (simp add: state_reads_def reads_switch_def)

lemma main_iter_state_only:
  assumes "\<forall>k. state (ms k) = state (ms' k)"
  shows "main_iter (state_reads ms) leds = main_iter (state_reads ms') leds"
proof -
  from assms have "state_reads ms = state_reads ms'"
    by (intro ext) (simp add: state_reads_def)
  then show ?thesis by simp
qed

lemma upt_1_8: "[Suc 0..<8] = [Suc 0, 2, 3, 4, 5, 6, 7]"
  by (simp add: upt_rec)

text \<open>
  Claim C9, as amended. The main loop reads the counter at every use, not once per
  iteration, and never reads \<open>enabled\<close>.
  \<^item> The mode is decided by the read at the idle test and, when that is not 255, by a
    second read at the overtime test.
  \<^item> In a running pass the active row and the sub-phase come from one read each, taken
    after the dispatch; for every scanned row the row order and the side of the red
    pattern come from a read of their own: each decision is a function of the value of
    its own read (20 reads at most).
  \<^item> A write of the counter after the dispatch (from \<open>a \<le> 63\<close> to any \<open>b\<close>) makes the
    whole pass a running pass rendered from \<open>b\<close>.
  \<^item> A write of the counter from \<open>a \<le> 63\<close> to \<open>b\<close> before the scan of row \<open>m\<close> is
    observed by the rest of the same pass: the rows before \<open>m\<close> are those of the pass for
    \<open>a\<close>, the rows from \<open>m\<close> on take row order and pattern side from \<open>b\<close> (active row
    and sub-phase still from \<open>a\<close>), and when \<open>a\<close> and \<open>b\<close> lie on different sides of 32
    every row byte from row \<open>m\<close> on differs from the one the pass for \<open>a\<close> sends.
  \<^item> Such reads arise when a handler runs between read \<open>k - 1\<close> and read \<open>k\<close>.
  \<^item> Two iterations that read the same values of \<open>state\<close> do the same, whatever
    \<open>enabled\<close> and \<open>TCNT1\<close> are; an iteration depends on its first 20 reads only, and
    it is the pass for one value \<open>c\<close> when all of them return \<open>c\<close>.
\<close>

theorem main_iter_reads:
  "(rd 0 = 255 \<longrightarrow> snd (main_iter rd leds) = [Show_leds 0xff 0x00 0x00 0xff])
   \<and> (rd 0 \<noteq> 255 \<and> 63 < rd 1 \<longrightarrow>
        snd (main_iter rd leds) =
          [Show_leds 0xff 0xff 0x00 0x00, Delay_ms 500, Show_leds 0x00 0x00 0x00 0x00, Delay_ms 500])
   \<and> (rd 0 \<noteq> 255 \<and> rd 1 \<le> 63 \<longrightarrow>
        snd (main_iter rd leds) =
          map (\<lambda>j. Show_leds (row_position (rd (4 + 2 * j)) j)
                 (reds_in_row (rd (5 + 2 * j)) (calc_actual_row (rd 2)) (calc_last_red (rd 3)) j 0)
                 (NOT (reds_in_row (rd (5 + 2 * j)) (calc_actual_row (rd 2)) (calc_last_red (rd 3)) j 0))
                 0) [0..<8])
   \<and> (a \<le> 63 \<longrightarrow>
        snd (main_iter (reads_switch 2 a b) leds) =
          map (\<lambda>j. Show_leds (row_position b j)
                 (reds_in_row b (calc_actual_row b) (calc_last_red b) j 0)
                 (NOT (reds_in_row b (calc_actual_row b) (calc_last_red b) j 0)) 0) [0..<8])
   \<and> (a \<le> 63 \<and> m \<le> 8 \<longrightarrow>
        snd (main_iter (reads_switch (4 + 2 * m) a b) leds) =
          take m (snd (main_iter (const_reads a) leds))
          @ map (\<lambda>j. Show_leds (row_position b j)
                   (reds_in_row b (calc_actual_row a) (calc_last_red a) j 0)
                   (NOT (reds_in_row b (calc_actual_row a) (calc_last_red a) j 0)) 0) [m..<8])
   \<and> (a \<le> 63 \<and> (a < 32) \<noteq> (b < 32) \<and> m \<le> j \<and> j < 8 \<longrightarrow>
        row_mask (snd (main_iter (reads_switch (4 + 2 * m) a b) leds) ! j) = row_position b j
        \<and> row_mask (snd (main_iter (const_reads a) leds) ! j) = row_position a j
        \<and> row_position b j \<noteq> row_position a j)
   \<and> state_reads (\<lambda>i. if i < k then s else irq_step e s)
        = reads_switch k (state s) (state (irq_step e s))
   \<and> ((\<forall>i. state (ms i) = state (ms' i)) \<longrightarrow>
        main_iter (state_reads ms) leds = main_iter (state_reads ms') leds)
   \<and> ((\<forall>i<20. rd i = rd' i) \<longrightarrow> main_iter rd leds = main_iter rd' leds)
   \<and> ((\<forall>i<20. rd i = c) \<longrightarrow> main_iter rd leds = main_iter (const_reads c) leds)"
proof -
  have const: "main_iter rd leds = main_iter (const_reads c) leds" if "\<forall>i<20. rd i = c"
    using that by (intro main_iter_reads_agree) (simp add: const_reads_def)
  show ?thesis
    by (intro conjI impI main_iter_idle main_iter_overtime main_iter_running main_iter_switch
        main_iter_switch_after_dispatch main_iter_switch_observed state_reads_switch main_iter_state_only main_iter_reads_agree const)
      (simp_all only: simp_thms)
qed

theorem main_iter_reads_witness:
  "snd (main_iter (const_reads 255) zero_buf) = [Show_leds 0xff 0x00 0x00 0xff]
   \<and> snd (main_iter (const_reads 64) zero_buf) =
       [Show_leds 0xff 0xff 0x00 0x00, Delay_ms 500, Show_leds 0x00 0x00 0x00 0x00, Delay_ms 500]
   \<and> snd (main_iter (reads_switch 2 63 64) zero_buf) =
       [Show_leds 0x01 0xFF 0x00 0, Show_leds 0x02 0xFF 0x00 0, Show_leds 0x04 0xFF 0x00 0,
        Show_leds 0x08 0xFF 0x00 0, Show_leds 0x10 0xFF 0x00 0, Show_leds 0x20 0xFF 0x00 0,
        Show_leds 0x40 0xFF 0x00 0, Show_leds 0x80 0xFF 0x00 0]
   \<and> snd (main_iter (reads_switch 6 31 32) zero_buf) =
       [Show_leds 0x80 0xF0 0x0F 0, Show_leds 0x02 0xFF 0x00 0, Show_leds 0x04 0xFF 0x00 0,
        Show_leds 0x08 0xFF 0x00 0, Show_leds 0x10 0xFF 0x00 0, Show_leds 0x20 0xFF 0x00 0,
        Show_leds 0x40 0xFF 0x00 0, Show_leds 0x80 0xFF 0x00 0]
   \<and> row_mask (snd (main_iter (reads_switch 6 31 32) zero_buf) ! 1) = 0x02
   \<and> row_mask (snd (main_iter (const_reads 31) zero_buf) ! 1) = 0x40
   \<and> state_reads (\<lambda>i. if i < 6 then \<lparr>state = 31, enabled = 1, TCNT1 = 0\<rparr>
                       else irq_step Timer_compare \<lparr>state = 31, enabled = 1, TCNT1 = 0\<rparr>)
       = reads_switch 6 31 32
   \<and> main_iter (state_reads (\<lambda>i. \<lparr>state = 31, enabled = 1, TCNT1 = 0\<rparr>)) zero_buf
       = main_iter (state_reads (\<lambda>i. \<lparr>state = 31, enabled = 0, TCNT1 = 9\<rparr>)) zero_buf
   \<and> main_iter (reads_31_then_32(25 := 7)) zero_buf = main_iter reads_31_then_32 zero_buf
   \<and> main_iter ((const_reads 5)(20 := 9)) zero_buf = main_iter (const_reads 5) zero_buf"
proof -
  note idle = main_iter_reads [where rd = "const_reads 255" and leds = zero_buf]
  note over = main_iter_reads [where rd = "const_reads 64" and leds = zero_buf]
  note sw = main_iter_reads [where leds = zero_buf and a = 31 and b = 32 and m = 1 and j = 1
      and k = 6 and s = "\<lparr>state = 31, enabled = 1, TCNT1 = 0\<rparr>" and e = Timer_compare
      and ms = "\<lambda>i. \<lparr>state = 31, enabled = 1, TCNT1 = 0\<rparr>"
      and ms' = "\<lambda>i. \<lparr>state = 31, enabled = 0, TCNT1 = 9\<rparr>"
      and rd = "reads_31_then_32(25 := 7)" and rd' = reads_31_then_32]
  note disp = main_iter_reads [where leds = zero_buf and a = 63 and b = 64]
  note ext = main_iter_reads [where leds = zero_buf and rd = "(const_reads 5)(20 := 9)" and c = 5]
  have c1: "snd (main_iter (const_reads 255) zero_buf) = [Show_leds 0xff 0x00 0x00 0xff]"
    using idle by (simp add: const_reads_def)
  have c2: "snd (main_iter (const_reads 64) zero_buf) =
       [Show_leds 0xff 0xff 0x00 0x00, Delay_ms 500, Show_leds 0x00 0x00 0x00 0x00, Delay_ms 500]"
    using over by (simp add: const_reads_def)
  have "(63 :: u8) \<le> 63"
    by simp
  with disp have "snd (main_iter (reads_switch 2 63 64) zero_buf) =
     map (\<lambda>j. Show_leds (row_position 64 j)
            (reds_in_row 64 (calc_actual_row 64) (calc_last_red 64) j 0)
            (NOT (reds_in_row 64 (calc_actual_row 64) (calc_last_red 64) j 0)) 0) [0..<8]"
    by blast
  then have c3: "snd (main_iter (reads_switch 2 63 64) zero_buf) =
       [Show_leds 0x01 0xFF 0x00 0, Show_leds 0x02 0xFF 0x00 0, Show_leds 0x04 0xFF 0x00 0,
        Show_leds 0x08 0xFF 0x00 0, Show_leds 0x10 0xFF 0x00 0, Show_leds 0x20 0xFF 0x00 0,
        Show_leds 0x40 0xFF 0x00 0, Show_leds 0x80 0xFF 0x00 0]"
    by (simp add: upt_0_8 row_position_def reds_in_row_def calc_actual_row_def calc_last_red_def
        red_right_def)
  have h: "(31 :: u8) \<le> 63 \<and> (1 :: nat) \<le> 8"
    and h': "(31 :: u8) \<le> 63 \<and> ((31 :: u8) < 32) \<noteq> ((32 :: u8) < 32) \<and> (1 :: nat) \<le> 1 \<and> (1 :: nat) < 8"
    by simp_all
  from sw h have "snd (main_iter (reads_switch (4 + 2 * 1) 31 32) zero_buf) =
      take 1 (snd (main_iter (const_reads 31) zero_buf))
      @ map (\<lambda>j. Show_leds (row_position 32 j)
               (reds_in_row 32 (calc_actual_row 31) (calc_last_red 31) j 0)
               (NOT (reds_in_row 32 (calc_actual_row 31) (calc_last_red 31) j 0)) 0) [1..<8]"
    by blast
  then have c4: "snd (main_iter (reads_switch 6 31 32) zero_buf) =
       [Show_leds 0x80 0xF0 0x0F 0, Show_leds 0x02 0xFF 0x00 0, Show_leds 0x04 0xFF 0x00 0,
        Show_leds 0x08 0xFF 0x00 0, Show_leds 0x10 0xFF 0x00 0, Show_leds 0x20 0xFF 0x00 0,
        Show_leds 0x40 0xFF 0x00 0, Show_leds 0x80 0xFF 0x00 0]"
    by (simp add: pass_at_31 upt_1_8 calc_at_31 row_position_def reds_in_row_def red_right_def)
  from sw h' have "row_mask (snd (main_iter (reads_switch (4 + 2 * 1) 31 32) zero_buf) ! 1) = row_position 32 1
      \<and> row_mask (snd (main_iter (const_reads 31) zero_buf) ! 1) = row_position 31 1"
    by blast
  then have c5: "row_mask (snd (main_iter (reads_switch 6 31 32) zero_buf) ! 1) = 0x02
      \<and> row_mask (snd (main_iter (const_reads 31) zero_buf) ! 1) = 0x40"
    by (simp add: row_position_def)
  from sw have c6: "state_reads (\<lambda>i. if i < 6 then \<lparr>state = 31, enabled = 1, TCNT1 = 0\<rparr>
                       else irq_step Timer_compare \<lparr>state = 31, enabled = 1, TCNT1 = 0\<rparr>)
       = reads_switch 6 31 32"
    by (simp add: TIMER1_COMPA_vect_def Let_def)
  from sw have c7: "main_iter (state_reads (\<lambda>i. \<lparr>state = 31, enabled = 1, TCNT1 = 0\<rparr>)) zero_buf
       = main_iter (state_reads (\<lambda>i. \<lparr>state = 31, enabled = 0, TCNT1 = 9\<rparr>)) zero_buf"
    by simp
  from sw have c8: "main_iter (reads_31_then_32(25 := 7)) zero_buf = main_iter reads_31_then_32 zero_buf"
    by simp
  from ext have c9: "main_iter ((const_reads 5)(20 := 9)) zero_buf = main_iter (const_reads 5) zero_buf"
    by (simp add: const_reads_def)
  from c1 c2 c3 c4 c5 c6 c7 c8 c9 show ?thesis
    by (simp only: simp_thms)
qed

end
